theory Spec2Isabelle
  imports Main
begin

section \<open>JavaScript values used by the portal\<close>

text \<open>
  Numbers that the portal stores are database integers (ids, round counts, scores), far
  below the range where a JavaScript number stops being exact, so ids are \<open>nat\<close> and
  scores are \<open>int\<close>. A nullable column is an \<open>option\<close>. \<open>x || 0\<close> on a nullable number
  is \<open>or0\<close>; the truthiness of a nullable id (\<open>!x\<close>, \<open>if (x)\<close>) is \<open>truthy\<close>:
  \<open>null\<close> and \<open>0\<close> are falsy.
\<close>

definition or0 :: "int option \<Rightarrow> int" where
  "or0 x = (case x of None \<Rightarrow> 0 | Some v \<Rightarrow> v)"

definition truthy :: "nat option \<Rightarrow> bool" where
  "truthy x = (case x of None \<Rightarrow> False | Some v \<Rightarrow> v \<noteq> 0)"

definition lower_char :: "char \<Rightarrow> char" where
  "lower_char c =
     (case map_of (zip ''ABCDEFGHIJKLMNOPQRSTUVWXYZ'' ''abcdefghijklmnopqrstuvwxyz'') c of
        None \<Rightarrow> c | Some d \<Rightarrow> d)"

definition toLowerCase :: "string \<Rightarrow> string" where
  "toLowerCase s = map lower_char s"

section \<open>Standings calculator: \<open>new_stack/web/utils/standings.ts\<close>\<close>

record Team =
  t_id :: nat
  t_name :: string
  t_group_name :: string

record Match =
  m_id :: nat
  m_team1_id :: nat
  m_team2_id :: nat
  m_match_type :: string
  m_status :: string
  m_week :: "int option"
  m_format :: "string option"
  m_score_t1 :: "int option"
  m_score_t2 :: "int option"
  m_maps_played :: "int option"
  m_is_forfeit :: "int option"

record MapRow =
  mr_match_id :: nat
  mr_team1_rounds :: "int option"
  mr_team2_rounds :: "int option"

record StandingRow =
  r_id :: nat
  r_name :: string
  r_group_name :: string
  r_played :: int
  r_wins :: int
  r_losses :: int
  r_points :: int
  r_pd :: int
  r_remaining :: int
  r_eliminated :: bool

record RoundAgg =
  agg_t1 :: int
  agg_t2 :: int

text \<open>
  \<open>byTeam\<close> is an object keyed by team id. \<open>Object.values\<close> lists integer keys in
  ascending order, and assigning an existing key replaces its value, so the object is an
  association list kept sorted by key. The rows are shared objects that the match loop
  mutates through the key (\<open>modify\<close>); when a match names the same team on both sides the
  two references alias one row, which updating by key reproduces.
\<close>

type_synonym byTeam = "(nat \<times> StandingRow) list"

fun put :: "nat \<Rightarrow> StandingRow \<Rightarrow> byTeam \<Rightarrow> byTeam" where
  "put k v [] = [(k, v)]"
| "put k v ((k', v') # xs) =
     (if k < k' then (k, v) # (k', v') # xs
      else if k = k' then (k, v) # xs
      else (k', v') # put k v xs)"

definition modify :: "nat \<Rightarrow> (StandingRow \<Rightarrow> StandingRow) \<Rightarrow> byTeam \<Rightarrow> byTeam" where
  "modify k f b = map (\<lambda>(k', v). if k' = k then (k', f v) else (k', v)) b"

definition initRow :: "Team \<Rightarrow> byTeam \<Rightarrow> byTeam" where
  "initRow t b = put (t_id t)
     \<lparr> r_id = t_id t, r_name = t_name t, r_group_name = t_group_name t,
       r_played = 0, r_wins = 0, r_losses = 0, r_points = 0, r_pd = 0,
       r_remaining = 0, r_eliminated = False \<rparr> b"

definition aggStep :: "MapRow \<Rightarrow> (nat \<rightharpoonup> RoundAgg) \<Rightarrow> (nat \<rightharpoonup> RoundAgg)" where
  "aggStep row roundAgg =
     (let cur = (case roundAgg (mr_match_id row) of
                   Some c \<Rightarrow> c | None \<Rightarrow> \<lparr> agg_t1 = 0, agg_t2 = 0 \<rparr>);
          cur1 = cur \<lparr> agg_t1 := agg_t1 cur + or0 (mr_team1_rounds row) \<rparr>;
          cur2 = cur1 \<lparr> agg_t2 := agg_t2 cur1 + or0 (mr_team2_rounds row) \<rparr>
      in roundAgg (mr_match_id row \<mapsto> cur2))"

definition roundAggOf :: "MapRow list \<Rightarrow> (nat \<rightharpoonup> RoundAgg)" where
  "roundAggOf maps = fold aggStep maps Map.empty"

text \<open>
  The entry of \<open>roundAgg\<close> that a step starts from, and the rounds of one side summed over
  the map rows of one match.
\<close>

definition curOf :: "(nat \<rightharpoonup> RoundAgg) \<Rightarrow> nat \<Rightarrow> RoundAgg" where
  "curOf ra k = (case ra k of Some c \<Rightarrow> c | None \<Rightarrow> \<lparr> agg_t1 = 0, agg_t2 = 0 \<rparr>)"

definition roundsSum :: "(MapRow \<Rightarrow> int option) \<Rightarrow> nat \<Rightarrow> MapRow list \<Rightarrow> int" where
  "roundsSum f k maps = sum_list (map (\<lambda>r. or0 (f r)) (filter (\<lambda>r. mr_match_id r = k) maps))"

text \<open>The two scores the match loop works with (lines 57 to 59).\<close>

definition scoresOf :: "(nat \<rightharpoonup> RoundAgg) \<Rightarrow> Match \<Rightarrow> int \<times> int" where
  "scoresOf roundAgg m =
     (let agg = (case roundAgg (m_id m) of
                   Some a \<Rightarrow> a | None \<Rightarrow> \<lparr> agg_t1 = 0, agg_t2 = 0 \<rparr>);
          score_t1 = (if agg_t1 agg > 0 then agg_t1 agg else or0 (m_score_t1 m));
          score_t2 = (if agg_t2 agg > 0 then agg_t2 agg else or0 (m_score_t2 m))
      in (score_t1, score_t2))"

definition isPlayed :: "Match \<Rightarrow> int \<Rightarrow> int \<Rightarrow> bool" where
  "isPlayed m score_t1 score_t2 =
     (let status = toLowerCase (m_status m);
          maps_played = or0 (m_maps_played m);
          is_forfeit = or0 (m_is_forfeit m)
      in status = ''completed'' \<or> score_t1 + score_t2 > 0 \<or> maps_played > 0 \<or> is_forfeit = 1)"

text \<open>The body of \<open>regs.forEach\<close>, statement by statement.\<close>

definition regStep :: "(nat \<rightharpoonup> RoundAgg) \<Rightarrow> Match \<Rightarrow> byTeam \<Rightarrow> byTeam" where
  "regStep roundAgg m b =
     (if map_of b (m_team1_id m) = None \<or> map_of b (m_team2_id m) = None then b
      else
        let t1 = m_team1_id m; t2 = m_team2_id m;
            (score_t1, score_t2) = scoresOf roundAgg m
        in if isPlayed m score_t1 score_t2 then
             let b1 = modify t1 (\<lambda>r. r \<lparr> r_played := r_played r + 1 \<rparr>) b;
                 b2 = modify t2 (\<lambda>r. r \<lparr> r_played := r_played r + 1 \<rparr>) b1;
                 p1 = (if score_t1 > score_t2 then 15 else min score_t1 12);
                 p2 = (if score_t2 > score_t1 then 15 else min score_t2 12);
                 b3 = modify t1 (\<lambda>r. r \<lparr> r_points := r_points r + p1 \<rparr>) b2;
                 b4 = modify t2 (\<lambda>r. r \<lparr> r_points := r_points r + p2 \<rparr>) b3;
                 b5 = modify t1 (\<lambda>r. r \<lparr> r_pd := r_pd r + (score_t1 - score_t2) \<rparr>) b4;
                 b6 = modify t2 (\<lambda>r. r \<lparr> r_pd := r_pd r + (score_t2 - score_t1) \<rparr>) b5
             in if score_t1 > score_t2 then
                  modify t2 (\<lambda>r. r \<lparr> r_losses := r_losses r + 1 \<rparr>)
                    (modify t1 (\<lambda>r. r \<lparr> r_wins := r_wins r + 1 \<rparr>) b6)
                else if score_t2 > score_t1 then
                  modify t1 (\<lambda>r. r \<lparr> r_losses := r_losses r + 1 \<rparr>)
                    (modify t2 (\<lambda>r. r \<lparr> r_wins := r_wins r + 1 \<rparr>) b6)
                else b6
           else
             modify t2 (\<lambda>r. r \<lparr> r_remaining := r_remaining r + 1 \<rparr>)
               (modify t1 (\<lambda>r. r \<lparr> r_remaining := r_remaining r + 1 \<rparr>) b))"

text \<open>
  \<open>Array.prototype.sort\<close> is stable; the comparator puts \<open>a\<close> before \<open>b\<close> when it
  returns a negative number and keeps their order when it returns zero.
\<close>

definition cmp :: "StandingRow \<Rightarrow> StandingRow \<Rightarrow> int" where
  "cmp a b = (if r_points b \<noteq> r_points a then r_points b - r_points a else r_pd b - r_pd a)"

fun insertRow :: "StandingRow \<Rightarrow> StandingRow list \<Rightarrow> StandingRow list" where
  "insertRow x [] = [x]"
| "insertRow x (y # ys) = (if cmp x y \<le> 0 then x # y # ys else y # insertRow x ys)"

definition sortRows :: "StandingRow list \<Rightarrow> StandingRow list" where
  "sortRows rows = foldr insertRow rows []"

definition isRegular :: "Match \<Rightarrow> bool" where
  "isRegular m = (toLowerCase (m_match_type m) = ''regular'')"

definition sixthOf :: "StandingRow list \<Rightarrow> int" where
  "sixthOf sortedRows = (if 5 < length sortedRows then r_points (sortedRows ! 5) else 0)"

definition tally :: "Team list \<Rightarrow> Match list \<Rightarrow> MapRow list \<Rightarrow> byTeam" where
  "tally teams matches maps =
     (let byTeam = fold initRow teams [];
          regs = filter isRegular matches;
          roundAgg = roundAggOf maps
      in fold (regStep roundAgg) regs byTeam)"

definition computeStandings :: "Team list \<Rightarrow> Match list \<Rightarrow> MapRow list \<Rightarrow> StandingRow list" where
  "computeStandings teams matches maps =
     (let rows = map snd (tally teams matches maps);
          sortedRows = sortRows rows;
          sixth = sixthOf sortedRows
      in map (\<lambda>r. r \<lparr> r_eliminated := (r_points r + r_remaining r * 15 < sixth) \<rparr>) sortedRows)"

text \<open>
  The standings page (\<open>getServerSideProps\<close>) splits the returned rows into one table per
  group, in the order returned; a row with an empty group name goes to group \<open>A\<close>.
\<close>

definition groupKey :: "StandingRow \<Rightarrow> string" where
  "groupKey r = (if r_group_name r = [] then ''A'' else r_group_name r)"

definition groupTable :: "string \<Rightarrow> StandingRow list \<Rightarrow> StandingRow list" where
  "groupTable g rows = filter (\<lambda>r. groupKey r = g) rows"

section \<open>Persisted tables\<close>

text \<open>
  A row of table \<open>matches\<close> and a row of table \<open>match_maps\<close>, with the columns that the
  map-save route, the bracket editor and the forfeit editor read or write. The
  player-statistics table and the pending-request bookkeeping (\<open>match_stats_map\<close>,
  \<open>pending_matches\<close>, columns \<open>reported\<close>, \<open>channel_id\<close>, \<open>submitter_id\<close>) are written by
  the route but read by none of the code below and are left out. Storage calls are taken to
  succeed; a column that an insert does not mention is \<open>null\<close>.
\<close>

record DbMatch =
  db_id :: nat
  db_week :: "int option"
  db_group_name :: "string option"
  db_team1_id :: "nat option"
  db_team2_id :: "nat option"
  db_status :: string
  db_format :: "string option"
  db_score_t1 :: "int option"
  db_score_t2 :: "int option"
  db_maps_played :: "int option"
  db_is_forfeit :: "int option"
  db_winner_id :: "nat option"
  db_match_type :: string
  db_playoff_round :: "nat option"
  db_bracket_pos :: "nat option"
  db_bracket_label :: "string option"

record DbMap =
  mm_match_id :: nat
  mm_map_index :: nat
  mm_map_name :: string
  mm_team1_rounds :: "int option"
  mm_team2_rounds :: "int option"
  mm_winner_id :: "nat option"
  mm_is_forfeit :: int

record Db =
  tbl_matches :: "DbMatch list"
  tbl_match_maps :: "DbMap list"

text \<open>\<open>x || d\<close> on a nullable id or position.\<close>

definition orNat :: "nat \<Rightarrow> nat option \<Rightarrow> nat" where
  "orNat d x = (case x of None \<Rightarrow> d | Some v \<Rightarrow> if v = 0 then d else v)"

text \<open>The id that the database gives an inserted row: one not in the table yet.\<close>

definition freshId :: "DbMatch list \<Rightarrow> nat" where
  "freshId ms = Suc (fold max (map db_id ms) 0)"

definition insertMatch :: "DbMatch \<Rightarrow> DbMatch list \<Rightarrow> DbMatch list" where
  "insertMatch row ms = ms @ [row \<lparr> db_id := freshId ms \<rparr>]"

text \<open>\<open>from('matches').update(patch).eq('id', id)\<close>: every row with that id is patched.\<close>

definition updateById :: "nat \<Rightarrow> (DbMatch \<Rightarrow> DbMatch) \<Rightarrow> DbMatch list \<Rightarrow> DbMatch list" where
  "updateById i patch ms = map (\<lambda>m. if db_id m = i then patch m else m) ms"

text \<open>Ids as the database keeps them: no two rows share one, and none is 0.\<close>

definition idsOk :: "DbMatch list \<Rightarrow> bool" where
  "idsOk ms = (distinct (map db_id ms) \<and> 0 \<notin> set (map db_id ms))"

text \<open>
  The select by \<open>(match_type, playoff_round, bracket_pos)\<close> with \<open>limit(1)\<close>: the first
  such row in table order.
\<close>

definition slotMatch :: "nat \<Rightarrow> nat \<Rightarrow> DbMatch list \<Rightarrow> DbMatch option" where
  "slotMatch round pos ms =
     find (\<lambda>m. db_match_type m = ''playoff'' \<and> db_playoff_round m = Some round
                \<and> db_bracket_pos m = Some pos) ms"

text \<open>Decimal digits of a number, for the bracket labels.\<close>

fun show_nat :: "nat \<Rightarrow> string" where
  "show_nat n =
     (if n < 10 then [''0123456789'' ! n]
      else show_nat (n div 10) @ [''0123456789'' ! (n mod 10)])"

definition newPlayoffMatch :: "int \<Rightarrow> nat option \<Rightarrow> nat option \<Rightarrow> nat \<Rightarrow> nat \<Rightarrow> DbMatch" where
  "newPlayoffMatch wk team1 team2 round pos =
     \<lparr> db_id = 0, db_week = Some wk, db_group_name = Some ''Playoffs'',
       db_team1_id = team1, db_team2_id = team2, db_status = ''scheduled'',
       db_format = Some ''BO3'', db_score_t1 = None, db_score_t2 = None,
       db_maps_played = Some 0, db_is_forfeit = None, db_winner_id = None,
       db_match_type = ''playoff'', db_playoff_round = Some round,
       db_bracket_pos = Some pos,
       db_bracket_label = Some (''R'' @ show_nat round @ '' #'' @ show_nat pos) \<rparr>"

section \<open>Map save and winner propagation: \<open>api/admin/maps/save/route.ts\<close>\<close>

record MapData =
  md_index :: nat
  md_name :: string
  md_t1_rounds :: "int option"
  md_t2_rounds :: "int option"
  md_winner_id :: "nat option"
  md_is_forfeit :: bool

datatype Response = Unauthorized | BadRequest | Ok

text \<open>Lines 60 to 63: the totals written onto the match.\<close>

definition t1Wins :: "DbMatch \<Rightarrow> DbMap list \<Rightarrow> nat" where
  "t1Wins matchInfo allMaps = length (filter (\<lambda>m. mm_winner_id m = db_team1_id matchInfo) allMaps)"

definition t2Wins :: "DbMatch \<Rightarrow> DbMap list \<Rightarrow> nat" where
  "t2Wins matchInfo allMaps = length (filter (\<lambda>m. mm_winner_id m = db_team2_id matchInfo) allMaps)"

definition finalWinner :: "DbMatch \<Rightarrow> DbMap list \<Rightarrow> nat option" where
  "finalWinner matchInfo allMaps =
     (if t1Wins matchInfo allMaps > t2Wins matchInfo allMaps then db_team1_id matchInfo
      else if t2Wins matchInfo allMaps > t1Wins matchInfo allMaps then db_team2_id matchInfo
      else None)"

definition payload :: "DbMatch \<Rightarrow> DbMap list \<Rightarrow> DbMatch \<Rightarrow> DbMatch" where
  "payload matchInfo allMaps m =
     m \<lparr> db_score_t1 := Some (int (t1Wins matchInfo allMaps)),
         db_score_t2 := Some (int (t2Wins matchInfo allMaps)),
         db_maps_played := Some (int (length allMaps)),
         db_winner_id := finalWinner matchInfo allMaps,
         db_status := ''completed'' \<rparr>"

text \<open>Lines 76 to 110: the winner of a playoff match goes to the slot of the next round.\<close>

definition propagate :: "DbMatch \<Rightarrow> nat \<Rightarrow> DbMatch list \<Rightarrow> DbMatch list" where
  "propagate matchInfo winnerTeam ms =
     (let round = orNat 1 (db_playoff_round matchInfo);
          pos = orNat 0 (db_bracket_pos matchInfo)
      in if pos \<noteq> 0 then
           (case slotMatch (round + 1) pos ms of
              Some nm \<Rightarrow>
                if \<not> truthy (db_team1_id nm) then
                  (if winnerTeam \<noteq> 0
                   then updateById (db_id nm) (\<lambda>m. m \<lparr> db_team1_id := Some winnerTeam \<rparr>) ms
                   else ms)
                else if \<not> truthy (db_team2_id nm) then
                  (if winnerTeam \<noteq> 0
                   then updateById (db_id nm) (\<lambda>m. m \<lparr> db_team2_id := Some winnerTeam \<rparr>) ms
                   else ms)
                else ms
            | None \<Rightarrow>
                insertMatch (newPlayoffMatch (or0 (db_week matchInfo)) None (Some winnerTeam)
                               (round + 1) pos) ms)
         else ms)"

definition saveMapRow :: "nat \<Rightarrow> MapData \<Rightarrow> DbMap list \<Rightarrow> DbMap list" where
  "saveMapRow matchId mapData rows =
     filter (\<lambda>r. \<not> (mm_match_id r = matchId \<and> mm_map_index r = md_index mapData)) rows
     @ [\<lparr> mm_match_id = matchId, mm_map_index = md_index mapData,
          mm_map_name = md_name mapData, mm_team1_rounds = md_t1_rounds mapData,
          mm_team2_rounds = md_t2_rounds mapData, mm_winner_id = md_winner_id mapData,
          mm_is_forfeit = (if md_is_forfeit mapData then 1 else 0) \<rparr>]"

definition resolveMatch :: "nat \<Rightarrow> Db \<Rightarrow> Db" where
  "resolveMatch matchId db =
     (let allMaps = filter (\<lambda>r. mm_match_id r = matchId) (tbl_match_maps db)
      in case find (\<lambda>m. db_id m = matchId) (tbl_matches db) of
           None \<Rightarrow> db
         | Some matchInfo \<Rightarrow>
             let ms = updateById matchId (payload matchInfo allMaps) (tbl_matches db);
                 winner = finalWinner matchInfo allMaps
             in if db_match_type matchInfo = ''playoff'' \<and> truthy winner
                then db \<lparr> tbl_matches := propagate matchInfo (orNat 0 winner) ms \<rparr>
                else db \<lparr> tbl_matches := ms \<rparr>)"

definition POST :: "bool \<Rightarrow> nat option \<Rightarrow> MapData option \<Rightarrow> Db \<Rightarrow> Response \<times> Db" where
  "POST authorized matchId mapData db =
     (if \<not> authorized then (Unauthorized, db)
      else case (matchId, mapData) of
             (Some mid, Some md) \<Rightarrow>
               if mid = 0 then (BadRequest, db)
               else (Ok, resolveMatch mid
                           (db \<lparr> tbl_match_maps := saveMapRow mid md (tbl_match_maps db) \<rparr>))
           | _ \<Rightarrow> (BadRequest, db))"

section \<open>Bracket editor and forfeit editor of the admin page\<close>

text \<open>
  Modelled from the spec: \<open>updateMatch\<close>, \<open>getPlayoffMatches\<close> and the routes
  \<open>matches/create\<close> and \<open>matches/bulk\<close> are not among the sources. \<open>updateMatch\<close> is
  the spec's patch of one match record, as route \<open>matches/update\<close> does it (no write
  without an id); the two create routes are the spec's \<open>createBracketMatch\<close>, an insert
  of each row sent; \<open>getPlayoffMatches\<close> lists the matches of type playoff.
\<close>

definition updateMatch :: "nat \<Rightarrow> (DbMatch \<Rightarrow> DbMatch) \<Rightarrow> DbMatch list \<Rightarrow> DbMatch list" where
  "updateMatch i patch ms = (if i = 0 then ms else updateById i patch ms)"

definition bulkInsert :: "DbMatch list \<Rightarrow> DbMatch list \<Rightarrow> DbMatch list" where
  "bulkInsert rows ms = fold insertMatch rows ms"

definition getPlayoffMatches :: "DbMatch list \<Rightarrow> DbMatch list" where
  "getPlayoffMatches ms = filter (\<lambda>m. db_match_type m = ''playoff'') ms"

definition isRound1 :: "DbMatch \<Rightarrow> bool" where
  "isRound1 m = (db_match_type m = ''playoff'' \<and> db_playoff_round m = Some 1)"

text \<open>
  ``Create Round 1 Matches'': \<open>matches\<close> is the list of playoff matches the editor was
  given; the rows go to the bulk route.
\<close>

definition round1Payload :: "DbMatch list \<Rightarrow> DbMatch list" where
  "round1Payload matches =
     (let existing = length (filter (\<lambda>m. db_playoff_round m = Some 1) matches);
          needed = max 0 (8 - int existing)
      in if needed > 0
         then map (\<lambda>i. newPlayoffMatch 0 None None 1 i) [existing + 1 ..< 9]
         else [])"

definition createRound1 :: "DbMatch list \<Rightarrow> DbMatch list" where
  "createRound1 ms = bulkInsert (round1Payload (getPlayoffMatches ms)) ms"

text \<open>
  ``Seed Round 2 BYEs'': \<open>round2Byes\<close> holds the eight selected teams (\<open>null\<close> where none
  is selected); a read past its end is \<open>undefined\<close>, which is falsy as \<open>null\<close> is.
\<close>

definition byeAt :: "nat option list \<Rightarrow> nat \<Rightarrow> nat option" where
  "byeAt round2Byes k = (if k < length round2Byes then round2Byes ! k else None)"

definition seedStep :: "nat option list \<Rightarrow> nat \<Rightarrow> DbMatch list \<Rightarrow> DbMatch list" where
  "seedStep round2Byes i ms =
     (let byeTeam = byeAt round2Byes (i - 1)
      in case slotMatch 2 i ms of
           Some existing \<Rightarrow>
             if truthy byeTeam
             then updateMatch (db_id existing) (\<lambda>m. m \<lparr> db_team1_id := byeTeam \<rparr>) ms
             else ms
         | None \<Rightarrow>
             insertMatch (newPlayoffMatch 0 (if truthy byeTeam then byeTeam else None) None 2 i) ms)"

definition seedRound2Byes :: "nat option list \<Rightarrow> DbMatch list \<Rightarrow> DbMatch list" where
  "seedRound2Byes round2Byes ms = fold (seedStep round2Byes) [1 ..< 9] ms"

text \<open>
  The forfeit editor. \<open>allMatches\<close> is the editor's list of matches with the two teams of
  each; \<open>forfeit\<close> is its ``Match-level Forfeit'' checkbox. \<open>clearMatchDetails\<close> is not
  among the sources and is a parameter. When the selected match is not in \<open>allMatches\<close>
  the winner is \<open>undefined\<close>, which the request body drops, so the column is not written.
\<close>

record MatchEntry =
  me_id :: nat
  me_team1_id :: nat
  me_team2_id :: nat

definition forfeitPatch :: "bool \<Rightarrow> string \<Rightarrow> MatchEntry option \<Rightarrow> DbMatch \<Rightarrow> DbMatch" where
  "forfeitPatch forfeit format sel m =
     (let s1 = (if forfeit then 13 else 0 :: int);
          s2 = (if forfeit then 0 else 13 :: int);
          m1 = (case sel of
                  None \<Rightarrow> m
                | Some e \<Rightarrow>
                    m \<lparr> db_winner_id := Some (if s1 > s2 then me_team1_id e else me_team2_id e) \<rparr>)
      in m1 \<lparr> db_score_t1 := Some s1, db_score_t2 := Some s2, db_status := ''completed'',
              db_format := Some format, db_maps_played := Some 0, db_is_forfeit := Some 1 \<rparr>)"

definition saveForfeitMatch ::
  "(nat \<Rightarrow> DbMatch list \<Rightarrow> DbMatch list) \<Rightarrow> nat \<Rightarrow> bool \<Rightarrow> string \<Rightarrow> MatchEntry list
     \<Rightarrow> DbMatch list \<Rightarrow> DbMatch list" where
  "saveForfeitMatch clearMatchDetails matchId forfeit format allMatches ms =
     (if matchId = 0 then ms
      else
        let ms1 = clearMatchDetails matchId ms;
            sel = find (\<lambda>m. me_id m = matchId) allMatches
        in updateMatch matchId (forfeitPatch forfeit format sel) ms1)"

text \<open>
  The ``Save Forfeit Match'' button, the only caller: it is disabled, and a click does
  nothing, unless a match is selected, the checkbox is ticked and no save is running.
\<close>

definition disabled :: "nat \<Rightarrow> bool \<Rightarrow> bool \<Rightarrow> bool" where
  "disabled matchId forfeit saving = (matchId = 0 \<or> \<not> forfeit \<or> saving)"

definition saveForfeitButton ::
  "(nat \<Rightarrow> DbMatch list \<Rightarrow> DbMatch list) \<Rightarrow> nat \<Rightarrow> bool \<Rightarrow> bool \<Rightarrow> string \<Rightarrow> MatchEntry list
     \<Rightarrow> DbMatch list \<Rightarrow> DbMatch list" where
  "saveForfeitButton clearMatchDetails matchId forfeit saving format allMatches ms =
     (if disabled matchId forfeit saving then ms
      else saveForfeitMatch clearMatchDetails matchId forfeit format allMatches ms)"

section \<open>Concrete leagues and brackets\<close>

text \<open>Small inputs on which the definitions are run below.\<close>

definition mkTeam :: "nat \<Rightarrow> string \<Rightarrow> Team" where
  "mkTeam i g = \<lparr> t_id = i, t_name = ''Team '' @ show_nat i, t_group_name = g \<rparr>"

definition mkRegular :: "nat \<Rightarrow> nat \<Rightarrow> nat \<Rightarrow> string \<Rightarrow> int option \<Rightarrow> int option \<Rightarrow> Match" where
  "mkRegular i a b st s1 s2 =
     \<lparr> m_id = i, m_team1_id = a, m_team2_id = b, m_match_type = ''regular'', m_status = st,
       m_week = Some 1, m_format = Some ''BO1'', m_score_t1 = s1, m_score_t2 = s2,
       m_maps_played = Some 0, m_is_forfeit = Some 0 \<rparr>"

text \<open>
  Seven teams, three in group A and four in group B, after four completed matches:
  team 1 beat team 7 by 13 to 0, and teams 1, 3 and 5 beat teams 2, 4 and 6 by 13 to 5.
\<close>

definition leagueTeams :: "Team list" where
  "leagueTeams = [mkTeam 1 ''A'', mkTeam 2 ''A'', mkTeam 3 ''A'',
                  mkTeam 4 ''B'', mkTeam 5 ''B'', mkTeam 6 ''B'', mkTeam 7 ''B'']"

definition leagueMatches :: "Match list" where
  "leagueMatches = [mkRegular 1 1 7 ''completed'' (Some 13) (Some 0),
                    mkRegular 2 1 2 ''completed'' (Some 13) (Some 5),
                    mkRegular 3 3 4 ''completed'' (Some 13) (Some 5),
                    mkRegular 4 5 6 ''completed'' (Some 13) (Some 5)]"

text \<open>
  One match between teams 1 and 2 whose stored score is 2 to 0, with a single map row
  that team 2 won by 13 rounds to 0.
\<close>

definition staleMatch :: Match where
  "staleMatch = mkRegular 1 1 2 ''completed'' (Some 2) (Some 0)"

definition staleMaps :: "MapRow list" where
  "staleMaps = [\<lparr> mr_match_id = 1, mr_team1_rounds = Some 0, mr_team2_rounds = Some 13 \<rparr>]"

text \<open>A match that names team 9, which is not in the league.\<close>

definition strayMatch :: Match where
  "strayMatch = mkRegular 5 9 2 ''completed'' (Some 13) (Some 4)"

text \<open>Playoff rows: a slot of the bracket with an id, two teams and a status.\<close>

definition mkPlayoff :: "nat \<Rightarrow> nat \<Rightarrow> nat \<Rightarrow> nat option \<Rightarrow> nat option \<Rightarrow> DbMatch" where
  "mkPlayoff i round pos team1 team2 = (newPlayoffMatch 0 team1 team2 round pos) \<lparr> db_id := i \<rparr>"

definition mkMapData :: "nat \<Rightarrow> int \<Rightarrow> int \<Rightarrow> nat option \<Rightarrow> MapData" where
  "mkMapData i a b w =
     \<lparr> md_index = i, md_name = ''Ascent'', md_t1_rounds = Some a, md_t2_rounds = Some b,
       md_winner_id = w, md_is_forfeit = False \<rparr>"

text \<open>
  Round 2, position 2: team 7 against team 9, not yet played; round 3, position 2: a match
  with both sides empty.
\<close>

definition bracketDb :: Db where
  "bracketDb = \<lparr> tbl_matches = [mkPlayoff 1 2 2 (Some 7) (Some 9), mkPlayoff 2 3 2 None None],
                 tbl_match_maps = [] \<rparr>"

text \<open>Round 1, position 3: team 7 against team 9, and no match in round 2 yet.\<close>

definition openingDb :: Db where
  "openingDb = \<lparr> tbl_matches = [mkPlayoff 1 1 3 (Some 7) (Some 9)], tbl_match_maps = [] \<rparr>"

text \<open>The same bracket once the first map of match 1, won by team 7, is stored.\<close>

definition openingSaved :: Db where
  "openingSaved = openingDb \<lparr> tbl_match_maps := saveMapRow 1 (mkMapData 0 13 5 (Some 7)) [] \<rparr>"

text \<open>
  Match 1 between teams 7 and 9 with one map saved, won by team 7; a second map, won by
  team 9, levels the map count.
\<close>

definition oneMapDb :: Db where
  "oneMapDb =
     \<lparr> tbl_matches = [(mkPlayoff 1 1 3 (Some 7) (Some 9)) \<lparr> db_match_type := ''regular'' \<rparr>],
       tbl_match_maps =
         [\<lparr> mm_match_id = 1, mm_map_index = 0, mm_map_name = ''Bind'', mm_team1_rounds = Some 13,
            mm_team2_rounds = Some 9, mm_winner_id = Some 7, mm_is_forfeit = 0 \<rparr>] \<rparr>"

text \<open>Round-2 seeds: team 9 for position 1, none for the other positions.\<close>

definition seeds :: "nat option list" where
  "seeds = [Some 9, None, None, None, None, None, None, None]"

text \<open>The forfeit editor's list: match 1 is team 10 against team 20.\<close>

definition editorMatches :: "MatchEntry list" where
  "editorMatches = [\<lparr> me_id = 1, me_team1_id = 10, me_team2_id = 20 \<rparr>]"

definition forfeitTable :: "DbMatch list" where
  "forfeitTable =
     [\<lparr> db_id = 1, db_week = Some 2, db_group_name = Some ''A'', db_team1_id = Some 10,
        db_team2_id = Some 20, db_status = ''scheduled'', db_format = Some ''BO3'',
        db_score_t1 = None, db_score_t2 = None, db_maps_played = Some 0,
        db_is_forfeit = Some 0, db_winner_id = None, db_match_type = ''regular'',
        db_playoff_round = None, db_bracket_pos = None, db_bracket_label = None \<rparr>]"

definition noClear :: "nat \<Rightarrow> DbMatch list \<Rightarrow> DbMatch list" where
  "noClear matchId ms = ms"

section \<open>Standings: what the calculator computes\<close>

subsection \<open>Round totals per match\<close>

lemma aggStep_apply:
  "aggStep row ra k =
     (if k = mr_match_id row
      then Some \<lparr> agg_t1 = agg_t1 (curOf ra k) + or0 (mr_team1_rounds row),
                  agg_t2 = agg_t2 (curOf ra k) + or0 (mr_team2_rounds row) \<rparr>
      else ra k)"
  by (cases "ra (mr_match_id row)") (simp_all add: aggStep_def curOf_def Let_def)

lemma filter_absent:
  "k \<notin> mr_match_id ` set maps \<Longrightarrow> filter (\<lambda>r. mr_match_id r = k) maps = []"
  by (induction maps) auto

lemma fold_aggStep:
  "fold aggStep maps ra k =
     (if k \<in> mr_match_id ` set maps
      then Some \<lparr> agg_t1 = agg_t1 (curOf ra k) + roundsSum mr_team1_rounds k maps,
                  agg_t2 = agg_t2 (curOf ra k) + roundsSum mr_team2_rounds k maps \<rparr>
      else ra k)"
proof (induction maps arbitrary: ra)
  case Nil
  then show ?case by simp
next
  case (Cons row maps)
  have "fold aggStep (row # maps) ra k = fold aggStep maps (aggStep row ra) k"
    by simp
  also have "\<dots> =
     (if k \<in> mr_match_id ` set maps
      then Some \<lparr> agg_t1 = agg_t1 (curOf (aggStep row ra) k) + roundsSum mr_team1_rounds k maps,
                  agg_t2 = agg_t2 (curOf (aggStep row ra) k) + roundsSum mr_team2_rounds k maps \<rparr>
      else aggStep row ra k)"
    by (rule Cons.IH)
  also have "\<dots> =
     (if k \<in> mr_match_id ` set (row # maps)
      then Some \<lparr> agg_t1 = agg_t1 (curOf ra k) + roundsSum mr_team1_rounds k (row # maps),
                  agg_t2 = agg_t2 (curOf ra k) + roundsSum mr_team2_rounds k (row # maps) \<rparr>
      else ra k)"
    by (auto simp: aggStep_apply curOf_def roundsSum_def filter_absent)
  finally show ?case .
qed

lemma roundAggOf_eq:
  "roundAggOf maps k =
     (if k \<in> mr_match_id ` set maps
      then Some \<lparr> agg_t1 = roundsSum mr_team1_rounds k maps,
                  agg_t2 = roundsSum mr_team2_rounds k maps \<rparr>
      else None)"
  by (simp add: roundAggOf_def fold_aggStep curOf_def)

lemma scoresOf_no_maps:
  "m_id m \<notin> mr_match_id ` set maps \<Longrightarrow>
     scoresOf (roundAggOf maps) m = (or0 (m_score_t1 m), or0 (m_score_t2 m))"
  by (simp add: scoresOf_def roundAggOf_eq)

lemma scoresOf_maps:
  "m_id m \<in> mr_match_id ` set maps \<Longrightarrow>
     scoresOf (roundAggOf maps) m =
       (if roundsSum mr_team1_rounds (m_id m) maps > 0
        then roundsSum mr_team1_rounds (m_id m) maps else or0 (m_score_t1 m),
        if roundsSum mr_team2_rounds (m_id m) maps > 0
        then roundsSum mr_team2_rounds (m_id m) maps else or0 (m_score_t2 m))"
  by (simp add: scoresOf_def roundAggOf_eq)

lemma sixthOf_cong:
  "sixthOf (map (\<lambda>r. r \<lparr> r_eliminated := e r \<rparr>) rows) = sixthOf rows"
  by (simp add: sixthOf_def)

lemma computeStandings_eliminated_iff:
  assumes "r \<in> set (computeStandings teams matches maps)"
  shows "r_eliminated r \<longleftrightarrow>
           r_points r + r_remaining r * 15 < sixthOf (computeStandings teams matches maps)"
  using assms by (auto simp: computeStandings_def Let_def sixthOf_cong)


subsection \<open>Elimination threshold\<close>

text \<open>
  C1. The claim: a team is eliminated if and only if its points plus 15 for each remaining
  match are below the points of the sixth row of its own group's table (0 when the group
  has fewer than six teams). The calculator takes the sixth row of the one table that
  holds every group (\<open>computeStandings_eliminated_iff\<close>); the page splits the rows by
  group afterwards. In the seven-team league, team 7 of group B has 0 points and nothing
  left to play; group B has four teams, so its threshold is 0 and the claim leaves team 7
  in contention, but the sixth row of the combined table has 5 points and the calculator
  marks team 7 eliminated.
\<close>

theorem computeStandings_threshold_spans_groups:
  "map (\<lambda>r. (r_id r, r_group_name r, r_points r, r_remaining r, r_eliminated r))
       (computeStandings leagueTeams leagueMatches [])
     = [(1, ''A'', 30, 0, False), (3, ''A'', 15, 0, False), (5, ''B'', 15, 0, False),
        (2, ''A'', 5, 0, False), (4, ''B'', 5, 0, False), (6, ''B'', 5, 0, False),
        (7, ''B'', 0, 0, True)]
   \<and> map r_id (groupTable ''B'' (computeStandings leagueTeams leagueMatches [])) = [5, 4, 6, 7]
   \<and> sixthOf (groupTable ''B'' (computeStandings leagueTeams leagueMatches [])) = 0"
  by code_simp


subsection \<open>Score resolution\<close>

text \<open>
  C2. The claim: once a match has a map row, its scores are the summed rounds of its map
  rows, and the stored \<open>score_t1\<close> and \<open>score_t2\<close> are used only when it has none, also
  when one side's sum is zero. The calculator decides per side: a side whose summed rounds
  are not positive takes the stored field (\<open>scoresOf_maps\<close>). The match below has one map
  row, lost by team 1 with 0 rounds to 13, and a stored score of 2 to 0: the calculator
  works with 2 to 13, so team 1 gets 2 points and a differential of -11 where the summed
  rounds give 0 points and -13.
\<close>

theorem computeStandings_stored_score_leaks:
  "mr_match_id (hd staleMaps) = m_id staleMatch
   \<and> roundsSum mr_team1_rounds 1 staleMaps = 0
   \<and> roundsSum mr_team2_rounds 1 staleMaps = 13
   \<and> scoresOf (roundAggOf staleMaps) staleMatch = (2, 13)
   \<and> map (\<lambda>r. (r_id r, r_points r, r_pd r))
          (computeStandings [mkTeam 1 ''A'', mkTeam 2 ''A''] [staleMatch] staleMaps)
       = [(2, 15, 11), (1, 2, - 11)]"
  by code_simp


subsection \<open>Matches of unknown teams\<close>

lemma map_fst_modify: "map fst (modify k f b) = map fst b"
  by (induction b) (auto simp: modify_def)

lemma map_of_None_iff_keys: "map_of b k = None \<longleftrightarrow> k \<notin> set (map fst b)"
  by (simp add: map_of_eq_None_iff)

lemma map_fst_regStep: "map fst (regStep ra m b) = map fst b"
  by (simp add: regStep_def Let_def map_fst_modify split: prod.splits)

lemma map_fst_fold_regStep: "map fst (fold (regStep ra) ms b) = map fst b"
  by (induction ms arbitrary: b) (simp_all add: map_fst_regStep)

lemma keys_put: "set (map fst (put k v b)) = insert k (set (map fst b))"
  by (induction k v b rule: put.induct) auto

lemma keys_fold_initRow:
  "set (map fst (fold initRow teams b)) = t_id ` set teams \<union> set (map fst b)"
  by (induction teams arbitrary: b) (auto simp: initRow_def keys_put simp del: set_map)

lemma regStep_unknown:
  assumes "m_team1_id m \<notin> set (map fst b) \<or> m_team2_id m \<notin> set (map fst b)"
  shows "regStep ra m b = b"
  using assms by (auto simp: regStep_def map_of_eq_None_iff)

lemma tally_unknown:
  assumes "m_team1_id m \<notin> t_id ` set teams \<or> m_team2_id m \<notin> t_id ` set teams"
  shows "tally teams (xs @ m # ys) maps = tally teams (xs @ ys) maps"
proof (cases "isRegular m")
  case False
  then show ?thesis by (simp add: tally_def)
next
  case True
  let ?b0 = "fold initRow teams []"
  let ?b1 = "fold (regStep (roundAggOf maps)) (filter isRegular xs) ?b0"
  have "set (map fst ?b1) = t_id ` set teams"
    by (simp add: map_fst_fold_regStep keys_fold_initRow del: set_map)
  with assms have "regStep (roundAggOf maps) m ?b1 = ?b1"
    by (intro regStep_unknown) simp
  with True show ?thesis by (simp add: tally_def)
qed


text \<open>
  C10. A match whose \<open>team1_id\<close> or \<open>team2_id\<close> is the id of no team in the team list
  contributes nothing: the table is the one computed without that match, wherever the
  match stands in the input. (It holds for a match of any type; one that is not regular is
  filtered out before.)
\<close>

theorem computeStandings_unknown_team_ignored:
  assumes "m_team1_id m \<notin> t_id ` set teams \<or> m_team2_id m \<notin> t_id ` set teams"
  shows "computeStandings teams (xs @ m # ys) maps = computeStandings teams (xs @ ys) maps"
  using tally_unknown [OF assms] by (simp add: computeStandings_def)

theorem computeStandings_unknown_team_ignored_witness:
  "m_team1_id strayMatch \<notin> t_id ` set leagueTeams
   \<and> isRegular strayMatch
   \<and> computeStandings leagueTeams (take 2 leagueMatches @ strayMatch # drop 2 leagueMatches) []
       = computeStandings leagueTeams (take 2 leagueMatches @ drop 2 leagueMatches) []"
proof -
  have h: "m_team1_id strayMatch \<notin> t_id ` set leagueTeams"
    by (simp add: strayMatch_def leagueTeams_def mkRegular_def mkTeam_def)
  have r: "isRegular strayMatch"
    by code_simp
  show ?thesis
    using h r computeStandings_unknown_team_ignored [of strayMatch leagueTeams] by simp
qed

section \<open>Map save: what the resolver writes\<close>

subsection \<open>Tables, ids and slots\<close>

lemma fold_max_ge: "a \<le> fold max xs (a::nat)"
  by (induction xs arbitrary: a) (auto intro: order_trans [OF max.cobounded2])

lemma fold_max_mem: "x \<in> set xs \<Longrightarrow> x \<le> fold max xs (a::nat)"
proof (induction xs arbitrary: a)
  case Nil
  then show ?case by simp
next
  case (Cons y ys)
  show ?case
  proof (cases "x = y")
    case True
    have "max y a \<le> fold max ys (max y a)" by (rule fold_max_ge)
    with True show ?thesis by simp
  next
    case False
    with Cons show ?thesis by simp
  qed
qed

lemma freshId_gt: "x \<in> set ms \<Longrightarrow> db_id x < freshId ms"
  using fold_max_mem [of "db_id x" "map db_id ms" 0] by (simp add: freshId_def)

lemma freshId_notin: "freshId ms \<notin> db_id ` set ms"
  using freshId_gt by fastforce

lemma freshId_nonzero: "freshId ms \<noteq> 0"
  by (simp add: freshId_def)

lemma find_mem: "find P xs = Some x \<Longrightarrow> x \<in> set xs \<and> P x"
  by (induction xs) (auto split: if_splits)

lemma find_map_option: "find P (map f xs) = map_option f (find (P \<circ> f) xs)"
  by (induction xs) auto

lemma find_snoc: "find P (xs @ [y]) = (case find P xs of Some x \<Rightarrow> Some x | None \<Rightarrow> if P y then Some y else None)"
  by (induction xs) auto

lemma map_id_updateById:
  "(\<And>m. db_id (patch m) = db_id m) \<Longrightarrow> map db_id (updateById i patch ms) = map db_id ms"
  by (induction ms) (auto simp: updateById_def)

lemma freshId_updateById:
  "(\<And>m. db_id (patch m) = db_id m) \<Longrightarrow> freshId (updateById i patch ms) = freshId ms"
  by (simp add: freshId_def map_id_updateById)

lemma db_id_payload: "db_id (payload mi maps m) = db_id m"
  by (simp add: payload_def)

lemma slotMatch_updateById:
  assumes "\<And>m. db_match_type (patch m) = db_match_type m"
      and "\<And>m. db_playoff_round (patch m) = db_playoff_round m"
      and "\<And>m. db_bracket_pos (patch m) = db_bracket_pos m"
  shows "slotMatch r p (updateById i patch ms)
           = map_option (\<lambda>m. if db_id m = i then patch m else m) (slotMatch r p ms)"
proof -
  have "(\<lambda>m. db_match_type m = ''playoff'' \<and> db_playoff_round m = Some r \<and> db_bracket_pos m = Some p)
          \<circ> (\<lambda>m. if db_id m = i then patch m else m)
        = (\<lambda>m. db_match_type m = ''playoff'' \<and> db_playoff_round m = Some r \<and> db_bracket_pos m = Some p)"
    by (auto simp: fun_eq_iff assms)
  then show ?thesis
    by (simp add: slotMatch_def updateById_def find_map_option)
qed

text \<open>Every row after a propagation is a row from before, with at most one team slot
  written, or the one new row.\<close>

lemma propagate_rows:
  assumes "m \<in> set (propagate mi w ms)"
  shows "(\<exists>x\<in>set ms. m = x \<or> m = x \<lparr> db_team1_id := Some w \<rparr> \<or> m = x \<lparr> db_team2_id := Some w \<rparr>)
         \<or> db_id m = freshId ms"
  using assms
  by (auto simp: propagate_def Let_def updateById_def insertMatch_def
           split: option.splits if_splits)

lemma updateById_rows:
  assumes "m \<in> set (updateById i patch ms)" "db_id m = i" "\<And>x. db_id (patch x) = db_id x"
  shows "\<exists>x\<in>set ms. db_id x = i \<and> m = patch x"
  using assms by (auto simp: updateById_def split: if_splits)

lemma resolveMatch_rows:
  assumes f: "find (\<lambda>m. db_id m = mid) (tbl_matches db) = Some mi"
      and m: "m \<in> set (tbl_matches (resolveMatch mid db))" "db_id m = mid"
  shows "\<exists>x. m = payload mi (filter (\<lambda>r. mm_match_id r = mid) (tbl_match_maps db)) x
           \<or> (\<exists>w. m = (payload mi (filter (\<lambda>r. mm_match_id r = mid) (tbl_match_maps db)) x)
                         \<lparr> db_team1_id := Some w \<rparr>)
           \<or> (\<exists>w. m = (payload mi (filter (\<lambda>r. mm_match_id r = mid) (tbl_match_maps db)) x)
                         \<lparr> db_team2_id := Some w \<rparr>)"
proof -
  let ?maps = "filter (\<lambda>r. mm_match_id r = mid) (tbl_match_maps db)"
  let ?ms = "updateById mid (payload mi ?maps) (tbl_matches db)"
  from f have mi: "mi \<in> set (tbl_matches db)" "db_id mi = mid"
    using find_mem [OF f] by auto
  then have "payload mi ?maps mi \<in> set ?ms"
    by (auto simp: updateById_def)
  then have lt: "mid < freshId ?ms"
    using freshId_gt [of "payload mi ?maps mi" ?ms] mi by (simp add: db_id_payload)
  have base: "\<exists>x. z = payload mi ?maps x" if "z \<in> set ?ms" "db_id z = mid" for z
    using updateById_rows [OF that db_id_payload] by auto
  consider (plain) "tbl_matches (resolveMatch mid db) = ?ms"
    | (forwarded) w where "tbl_matches (resolveMatch mid db) = propagate mi w ?ms"
    using f by (cases "db_match_type mi = ''playoff'' \<and> truthy (finalWinner mi ?maps)")
      (simp_all add: resolveMatch_def Let_def)
  then show ?thesis
  proof cases
    case plain
    with m have "m \<in> set ?ms" by simp
    from base [OF this m(2)] show ?thesis by blast
  next
    case (forwarded w)
    with m have "m \<in> set (propagate mi w ?ms)" by simp
    from propagate_rows [OF this] lt m(2)
    obtain x where x: "x \<in> set ?ms"
      "m = x \<or> m = x \<lparr> db_team1_id := Some w \<rparr> \<or> m = x \<lparr> db_team2_id := Some w \<rparr>"
      by auto
    with m(2) have "db_id x = mid" by auto
    from base [OF x(1) this] obtain y where "x = payload mi ?maps y" ..
    with x(2) show ?thesis by blast
  qed
qed

subsection \<open>Completed matches and their winner\<close>

text \<open>
  C7, as amended. The claim: every match the map save leaves completed has a winner. The
  route marks the match completed on every save and writes as winner \<open>team1_id\<close> when
  team 1 has won more maps, \<open>team2_id\<close> when team 2 has, and \<open>null\<close> when the two counts
  are equal, which includes maps whose winner is neither team.
\<close>

theorem resolveMatch_completed_winner:
  assumes "find (\<lambda>m. db_id m = mid) (tbl_matches db) = Some mi"
      and "m \<in> set (tbl_matches (resolveMatch mid db))" and "db_id m = mid"
  shows "db_status m = ''completed'' \<and>
         db_winner_id m =
           (let allMaps = filter (\<lambda>r. mm_match_id r = mid) (tbl_match_maps db);
                a = length (filter (\<lambda>r. mm_winner_id r = db_team1_id mi) allMaps);
                b = length (filter (\<lambda>r. mm_winner_id r = db_team2_id mi) allMaps)
            in if a > b then db_team1_id mi else if b > a then db_team2_id mi else None)"
  using resolveMatch_rows [OF assms]
  by (auto simp: payload_def finalWinner_def t1Wins_def t2Wins_def Let_def)

theorem resolveMatch_completed_winner_witness:
  "db_status (hd (tbl_matches (resolveMatch 1 oneMapDb))) = ''completed''
   \<and> db_winner_id (hd (tbl_matches (resolveMatch 1 oneMapDb))) = Some 7"
proof -
  have f: "find (\<lambda>m. db_id m = 1) (tbl_matches oneMapDb) = Some (hd (tbl_matches oneMapDb))"
    by code_simp
  have m: "hd (tbl_matches (resolveMatch 1 oneMapDb)) \<in> set (tbl_matches (resolveMatch 1 oneMapDb))"
    by code_simp
  have i: "db_id (hd (tbl_matches (resolveMatch 1 oneMapDb))) = 1"
    by code_simp
  have a: "length (filter (\<lambda>r. mm_winner_id r = db_team1_id (hd (tbl_matches oneMapDb)))
              (filter (\<lambda>r. mm_match_id r = 1) (tbl_match_maps oneMapDb))) = 1"
    by code_simp
  have b: "length (filter (\<lambda>r. mm_winner_id r = db_team2_id (hd (tbl_matches oneMapDb)))
              (filter (\<lambda>r. mm_match_id r = 1) (tbl_match_maps oneMapDb))) = 0"
    by code_simp
  have t: "db_team1_id (hd (tbl_matches oneMapDb)) = Some 7"
    by code_simp
  show ?thesis
    using resolveMatch_completed_winner [OF f m i] a b t by (simp add: Let_def)
qed

text \<open>
  One map each for teams 7 and 9: the match is completed, 1 to 1, and has no winner.
\<close>

theorem POST_level_maps_completed_without_winner:
  "map (\<lambda>m. (db_id m, db_status m, db_score_t1 m, db_score_t2 m, db_winner_id m))
       (tbl_matches (snd (POST True (Some 1) (Some (mkMapData 1 5 13 (Some 9))) oneMapDb)))
     = [(1, ''completed'', Some 1, Some 1, None)]"
  by code_simp

subsection \<open>A map winner that is neither team\<close>

lemma filter_saveMapRow:
  "filter (\<lambda>r. mm_match_id r = mid) (saveMapRow mid md rows)
     = filter (\<lambda>r. mm_match_id r = mid \<and> mm_map_index r \<noteq> md_index md) rows
       @ [\<lparr> mm_match_id = mid, mm_map_index = md_index md,
            mm_map_name = md_name md, mm_team1_rounds = md_t1_rounds md,
            mm_team2_rounds = md_t2_rounds md, mm_winner_id = md_winner_id md,
            mm_is_forfeit = (if md_is_forfeit md then 1 else 0) \<rparr>]"
  by (auto simp: saveMapRow_def intro: filter_cong)

lemma maps_resolveMatch: "tbl_match_maps (resolveMatch mid db) = tbl_match_maps db"
  by (simp add: resolveMatch_def Let_def split: option.splits)

text \<open>
  C8, as amended. The claim: a map whose winner is neither team of the match is rejected
  and nothing is stored. The route checks nothing about the winner: the request is
  answered \<open>ok\<close>, the map row is stored as sent, and the match is completed with the map
  counted in \<open>maps_played\<close> and in neither score.
\<close>

theorem POST_accepts_foreign_winner:
  assumes "mid \<noteq> 0"
      and "find (\<lambda>m. db_id m = mid) (tbl_matches db) = Some mi"
      and "md_winner_id md \<noteq> db_team1_id mi" and "md_winner_id md \<noteq> db_team2_id mi"
  shows "fst (POST True (Some mid) (Some md) db) = Ok
       \<and> tbl_match_maps (snd (POST True (Some mid) (Some md) db))
           = filter (\<lambda>r. \<not> (mm_match_id r = mid \<and> mm_map_index r = md_index md)) (tbl_match_maps db)
             @ [\<lparr> mm_match_id = mid, mm_map_index = md_index md,
                  mm_map_name = md_name md, mm_team1_rounds = md_t1_rounds md,
                  mm_team2_rounds = md_t2_rounds md, mm_winner_id = md_winner_id md,
                  mm_is_forfeit = (if md_is_forfeit md then 1 else 0) \<rparr>]
       \<and> (\<forall>m \<in> set (tbl_matches (snd (POST True (Some mid) (Some md) db))).
             db_id m = mid \<longrightarrow>
               (let others = filter (\<lambda>r. mm_match_id r = mid \<and> mm_map_index r \<noteq> md_index md)
                               (tbl_match_maps db)
                in db_status m = ''completed''
                 \<and> db_maps_played m = Some (int (length others) + 1)
                 \<and> db_score_t1 m
                     = Some (int (length (filter (\<lambda>r. mm_winner_id r = db_team1_id mi) others)))
                 \<and> db_score_t2 m
                     = Some (int (length (filter (\<lambda>r. mm_winner_id r = db_team2_id mi) others)))))"
proof -
  let ?db1 = "db \<lparr> tbl_match_maps := saveMapRow mid md (tbl_match_maps db) \<rparr>"
  let ?others = "filter (\<lambda>r. mm_match_id r = mid \<and> mm_map_index r \<noteq> md_index md) (tbl_match_maps db)"
  let ?all = "filter (\<lambda>r. mm_match_id r = mid) (tbl_match_maps ?db1)"
  have post: "POST True (Some mid) (Some md) db = (Ok, resolveMatch mid ?db1)"
    using assms(1) by (simp add: POST_def)
  have f: "find (\<lambda>m. db_id m = mid) (tbl_matches ?db1) = Some mi"
    using assms(2) by simp
  have len: "length ?all = length ?others + 1"
    by (simp add: filter_saveMapRow)
  have w1: "t1Wins mi ?all = length (filter (\<lambda>r. mm_winner_id r = db_team1_id mi) ?others)"
    using assms(3) by (simp add: t1Wins_def filter_saveMapRow)
  have w2: "t2Wins mi ?all = length (filter (\<lambda>r. mm_winner_id r = db_team2_id mi) ?others)"
    using assms(4) by (simp add: t2Wins_def filter_saveMapRow)
  have rows: "db_status m = ''completed''
       \<and> db_maps_played m = Some (int (length ?others) + 1)
       \<and> db_score_t1 m = Some (int (length (filter (\<lambda>r. mm_winner_id r = db_team1_id mi) ?others)))
       \<and> db_score_t2 m = Some (int (length (filter (\<lambda>r. mm_winner_id r = db_team2_id mi) ?others)))"
    if "m \<in> set (tbl_matches (resolveMatch mid ?db1))" "db_id m = mid" for m
  proof -
    from resolveMatch_rows [OF f that] obtain x where
      "m = payload mi ?all x
         \<or> (\<exists>w. m = (payload mi ?all x) \<lparr> db_team1_id := Some w \<rparr>)
         \<or> (\<exists>w. m = (payload mi ?all x) \<lparr> db_team2_id := Some w \<rparr>)" ..
    then have "db_status m = db_status (payload mi ?all x)"
      "db_maps_played m = db_maps_played (payload mi ?all x)"
      "db_score_t1 m = db_score_t1 (payload mi ?all x)"
      "db_score_t2 m = db_score_t2 (payload mi ?all x)"
      by auto
    then show ?thesis
      unfolding payload_def w1 w2 len by simp
  qed
  have maps: "tbl_match_maps (resolveMatch mid ?db1) = saveMapRow mid md (tbl_match_maps db)"
    by (simp add: maps_resolveMatch)
  show ?thesis
    unfolding post fst_conv snd_conv maps Let_def using rows
    by (simp add: saveMapRow_def)
qed

theorem POST_accepts_foreign_winner_witness:
  "fst (POST True (Some 1) (Some (mkMapData 1 5 13 (Some 99))) oneMapDb) = Ok
   \<and> map mm_winner_id
       (tbl_match_maps (snd (POST True (Some 1) (Some (mkMapData 1 5 13 (Some 99))) oneMapDb)))
       = [Some 7, Some 99]"
proof -
  have f: "find (\<lambda>m. db_id m = 1) (tbl_matches oneMapDb) = Some (hd (tbl_matches oneMapDb))"
    by code_simp
  have a: "md_winner_id (mkMapData 1 5 13 (Some 99)) \<noteq> db_team1_id (hd (tbl_matches oneMapDb))"
    by code_simp
  have b: "md_winner_id (mkMapData 1 5 13 (Some 99)) \<noteq> db_team2_id (hd (tbl_matches oneMapDb))"
    by code_simp
  have c: "map mm_winner_id
             (filter (\<lambda>r. \<not> (mm_match_id r = 1 \<and> mm_map_index r = md_index (mkMapData 1 5 13 (Some 99))))
                (tbl_match_maps oneMapDb)) = [Some 7]"
    by code_simp
  have d: "md_winner_id (mkMapData 1 5 13 (Some 99)) = Some 99"
    by code_simp
  have n: "(1::nat) \<noteq> 0" by simp
  from POST_accepts_foreign_winner [OF n f a b]
  have "fst (POST True (Some 1) (Some (mkMapData 1 5 13 (Some 99))) oneMapDb) = Ok"
    and "map mm_winner_id (tbl_match_maps (snd (POST True (Some 1) (Some (mkMapData 1 5 13 (Some 99))) oneMapDb)))
       = map mm_winner_id (filter (\<lambda>r. \<not> (mm_match_id r = 1 \<and> mm_map_index r = md_index (mkMapData 1 5 13 (Some 99))))
                (tbl_match_maps oneMapDb)) @ [md_winner_id (mkMapData 1 5 13 (Some 99))]"
    by simp_all
  then show ?thesis
    unfolding c d by simp
qed

text \<open>A second map of match 1 (teams 7 and 9) whose winner is team 99.\<close>

theorem POST_foreign_winner_saved:
  "fst (POST True (Some 1) (Some (mkMapData 1 5 13 (Some 99))) oneMapDb) = Ok
   \<and> map (\<lambda>r. (mm_match_id r, mm_map_index r, mm_winner_id r))
          (tbl_match_maps (snd (POST True (Some 1) (Some (mkMapData 1 5 13 (Some 99))) oneMapDb)))
       = [(1, 0, Some 7), (1, 1, Some 99)]
   \<and> map (\<lambda>m. (db_id m, db_status m, db_score_t1 m, db_score_t2 m, db_maps_played m, db_winner_id m))
          (tbl_matches (snd (POST True (Some 1) (Some (mkMapData 1 5 13 (Some 99))) oneMapDb)))
       = [(1, ''completed'', Some 1, Some 0, Some 2, Some 7)]"
  by code_simp

section \<open>Winner propagation\<close>

lemma propagate_existing:
  assumes "orNat 0 (db_bracket_pos mi) \<noteq> 0" and "w \<noteq> 0"
      and "slotMatch (orNat 1 (db_playoff_round mi) + 1) (orNat 0 (db_bracket_pos mi)) ms = Some nm"
  shows "propagate mi w ms =
           (if \<not> truthy (db_team1_id nm)
            then updateById (db_id nm) (\<lambda>m. m \<lparr> db_team1_id := Some w \<rparr>) ms
            else if \<not> truthy (db_team2_id nm)
            then updateById (db_id nm) (\<lambda>m. m \<lparr> db_team2_id := Some w \<rparr>) ms
            else ms)"
  using assms by (simp add: propagate_def Let_def)

text \<open>
  C3. The claim: the winner goes to \<open>team1_id\<close> of the successor if that is empty, else
  to \<open>team2_id\<close> if that is empty, else nothing is written (\<open>propagate_existing\<close>), and
  so running the propagation again changes nothing. The first part holds; the second does
  not, since no step looks whether the winner already sits on the other side. Saving the
  same map of the round-2 match twice puts team 7 on both sides of the round-3 match.
\<close>

theorem POST_propagation_repeats_winner:
  "map (\<lambda>m. (db_id m, db_team1_id m, db_team2_id m))
       (tbl_matches (snd (POST True (Some 1) (Some (mkMapData 0 13 5 (Some 7))) bracketDb)))
     = [(1, Some 7, Some 9), (2, Some 7, None)]
   \<and> map (\<lambda>m. (db_id m, db_team1_id m, db_team2_id m))
       (tbl_matches (snd (POST True (Some 1) (Some (mkMapData 0 13 5 (Some 7)))
                      (snd (POST True (Some 1) (Some (mkMapData 0 13 5 (Some 7))) bracketDb)))))
     = [(1, Some 7, Some 9), (2, Some 7, Some 7)]"
  by code_simp

lemma slotMatch_payload:
  "slotMatch r p (updateById i (payload mi maps) ms) = None \<longleftrightarrow> slotMatch r p ms = None"
  by (subst slotMatch_updateById) (simp_all add: payload_def)

text \<open>
  C4, as amended. The claim: when no successor match exists it is created with the winner
  as \<open>team1_id\<close>. The route creates it with the winner as \<open>team2_id\<close> and \<open>team1_id\<close>
  null, and only for a match that has a bracket position.
\<close>

theorem resolveMatch_creates_successor:
  assumes "find (\<lambda>m. db_id m = mid) (tbl_matches db) = Some mi"
      and "db_match_type mi = ''playoff''"
      and "finalWinner mi (filter (\<lambda>r. mm_match_id r = mid) (tbl_match_maps db)) = Some w"
      and "w \<noteq> 0"
      and "db_bracket_pos mi = Some pos" and "pos \<noteq> 0"
      and "slotMatch (orNat 1 (db_playoff_round mi) + 1) pos (tbl_matches db) = None"
  shows "tbl_matches (resolveMatch mid db)
           = updateById mid (payload mi (filter (\<lambda>r. mm_match_id r = mid) (tbl_match_maps db)))
               (tbl_matches db)
             @ [\<lparr> db_id = freshId (tbl_matches db), db_week = Some (or0 (db_week mi)),
                  db_group_name = Some ''Playoffs'',
                  db_team1_id = None, db_team2_id = Some w, db_status = ''scheduled'',
                  db_format = Some ''BO3'', db_score_t1 = None, db_score_t2 = None,
                  db_maps_played = Some 0, db_is_forfeit = None, db_winner_id = None,
                  db_match_type = ''playoff'',
                  db_playoff_round = Some (orNat 1 (db_playoff_round mi) + 1),
                  db_bracket_pos = Some pos,
                  db_bracket_label = Some (''R'' @ show_nat (orNat 1 (db_playoff_round mi) + 1)
                                            @ '' #'' @ show_nat pos) \<rparr>]"
proof -
  let ?maps = "filter (\<lambda>r. mm_match_id r = mid) (tbl_match_maps db)"
  let ?ms = "updateById mid (payload mi ?maps) (tbl_matches db)"
  let ?round = "orNat 1 (db_playoff_round mi)"
  have tr: "truthy (finalWinner mi ?maps)" and ow: "orNat 0 (finalWinner mi ?maps) = w"
    using assms(3,4) by (simp_all add: truthy_def orNat_def)
  have pos: "orNat 0 (db_bracket_pos mi) = pos"
    using assms(5,6) by (simp add: orNat_def)
  have slot: "slotMatch (?round + 1) pos ?ms = None"
    using assms(7) by (simp only: slotMatch_payload)
  have res: "tbl_matches (resolveMatch mid db) = propagate mi w ?ms"
    unfolding resolveMatch_def Let_def using assms(1,2) tr ow by simp
  have "propagate mi w ?ms
          = insertMatch (newPlayoffMatch (or0 (db_week mi)) None (Some w) (?round + 1) pos) ?ms"
    unfolding propagate_def Let_def pos using slot assms(6) by simp
  then show ?thesis
    unfolding res
    by (simp add: insertMatch_def newPlayoffMatch_def freshId_updateById db_id_payload)
qed

theorem resolveMatch_creates_successor_witness:
  "map (\<lambda>m. (db_id m, db_playoff_round m, db_bracket_pos m, db_team1_id m, db_team2_id m))
       (tbl_matches (resolveMatch 1 openingSaved))
     = [(1, Some 1, Some 3, Some 7, Some 9), (2, Some 2, Some 3, None, Some 7)]"
proof -
  have f: "find (\<lambda>m. db_id m = 1) (tbl_matches openingSaved) = Some (mkPlayoff 1 1 3 (Some 7) (Some 9))"
    by code_simp
  have t: "db_match_type (mkPlayoff 1 1 3 (Some 7) (Some 9)) = ''playoff''"
    by code_simp
  have w: "finalWinner (mkPlayoff 1 1 3 (Some 7) (Some 9))
             (filter (\<lambda>r. mm_match_id r = 1) (tbl_match_maps openingSaved)) = Some 7"
    by code_simp
  have p: "db_bracket_pos (mkPlayoff 1 1 3 (Some 7) (Some 9)) = Some 3"
    by code_simp
  have s: "slotMatch (orNat 1 (db_playoff_round (mkPlayoff 1 1 3 (Some 7) (Some 9))) + 1) 3
             (tbl_matches openingSaved) = None"
    by code_simp
  have u: "map (\<lambda>m. (db_id m, db_playoff_round m, db_bracket_pos m, db_team1_id m, db_team2_id m))
             (updateById 1 (payload (mkPlayoff 1 1 3 (Some 7) (Some 9))
                 (filter (\<lambda>r. mm_match_id r = 1) (tbl_match_maps openingSaved)))
               (tbl_matches openingSaved))
           = [(1, Some 1, Some 3, Some 7, Some 9)]"
    by code_simp
  have i: "freshId (tbl_matches openingSaved) = 2"
    by code_simp
  have r: "orNat 1 (db_playoff_round (mkPlayoff 1 1 3 (Some 7) (Some 9))) + 1 = 2"
    by code_simp
  have "tbl_matches (resolveMatch 1 openingSaved) = 
     updateById 1 (payload (mkPlayoff 1 1 3 (Some 7) (Some 9))
                 (filter (\<lambda>r. mm_match_id r = 1) (tbl_match_maps openingSaved)))
               (tbl_matches openingSaved) @
        [\<lparr> db_id = freshId (tbl_matches openingSaved), db_week = Some (or0 (db_week (mkPlayoff 1 1 3 (Some 7) (Some 9)))),
                  db_group_name = Some ''Playoffs'',
                  db_team1_id = None, db_team2_id = Some 7, db_status = ''scheduled'',
                  db_format = Some ''BO3'', db_score_t1 = None, db_score_t2 = None,
                  db_maps_played = Some 0, db_is_forfeit = None, db_winner_id = None,
                  db_match_type = ''playoff'',
                  db_playoff_round = Some (orNat 1 (db_playoff_round (mkPlayoff 1 1 3 (Some 7) (Some 9))) + 1),
                  db_bracket_pos = Some 3,
                  db_bracket_label = Some (''R'' @ show_nat (orNat 1 (db_playoff_round (mkPlayoff 1 1 3 (Some 7) (Some 9))) + 1)
                                            @ '' #'' @ show_nat 3) \<rparr>]"
    by (rule resolveMatch_creates_successor [OF f t w _ p _ s]) simp_all
  then show ?thesis
    using u i r by simp
qed

text \<open>Team 7 wins the round-1 match of position 3; round 2 has no match yet.\<close>

theorem POST_creates_successor_on_team2:
  "slotMatch 2 3 (tbl_matches openingDb) = None
   \<and> map (\<lambda>m. (db_id m, db_playoff_round m, db_bracket_pos m, db_team1_id m, db_team2_id m))
          (tbl_matches (snd (POST True (Some 1) (Some (mkMapData 0 13 5 (Some 7))) openingDb)))
       = [(1, Some 1, Some 3, Some 7, Some 9), (2, Some 2, Some 3, None, Some 7)]"
  by code_simp

section \<open>Bracket editor\<close>

subsection \<open>Round 1\<close>

lemma bulkInsert_append:
  "\<exists>new. bulkInsert rows ms = ms @ new \<and> length new = length rows
          \<and> (list_all isRound1 rows \<longrightarrow> list_all isRound1 new)"
  unfolding bulkInsert_def
proof (induction rows arbitrary: ms)
  case Nil
  then show ?case by simp
next
  case (Cons r rows)
  from Cons [of "insertMatch r ms"] obtain new where
    new: "fold insertMatch rows (insertMatch r ms) = insertMatch r ms @ new"
      "length new = length rows" "list_all isRound1 rows \<longrightarrow> list_all isRound1 new"
    by blast
  let ?new = "r \<lparr> db_id := freshId ms \<rparr> # new"
  have "fold insertMatch (r # rows) ms = ms @ ?new"
    using new(1) by (simp add: insertMatch_def)
  moreover have "length ?new = length (r # rows)"
    using new(2) by simp
  moreover have "list_all isRound1 (r # rows) \<longrightarrow> list_all isRound1 ?new"
    using new(3) by (simp add: isRound1_def)
  ultimately show ?case by blast
qed

lemma round1Payload_round1: "list_all isRound1 (round1Payload matches)"
  by (auto simp: round1Payload_def Let_def list_all_iff isRound1_def newPlayoffMatch_def)

lemma length_round1Payload:
  "length (round1Payload matches)
     = 8 - length (filter (\<lambda>m. db_playoff_round m = Some 1) matches)"
  by (simp add: round1Payload_def Let_def)

lemma round1_count:
  "length (filter (\<lambda>m. db_playoff_round m = Some 1) (getPlayoffMatches ms))
     = length (filter isRound1 ms)"
  unfolding getPlayoffMatches_def isRound1_def
  by (induction ms) simp_all

text \<open>What does hold: after a run there are at least eight round-1 matches, so a second
  run sends nothing.\<close>

lemma createRound1_count:
  "length (filter isRound1 (createRound1 ms)) = max 8 (length (filter isRound1 ms))"
proof -
  obtain new where new: "createRound1 ms = ms @ new"
    "length new = length (round1Payload (getPlayoffMatches ms))" "list_all isRound1 new"
    using bulkInsert_append [of "round1Payload (getPlayoffMatches ms)" ms]
      round1Payload_round1 [of "getPlayoffMatches ms"]
    by (auto simp: createRound1_def)
  from new(3) have "filter isRound1 new = new"
    by (simp add: list_all_iff)
  with new(1,2) show ?thesis
    unfolding length_round1Payload round1_count by simp
qed

lemma createRound1_twice: "createRound1 (createRound1 ms) = createRound1 ms"
proof -
  have "8 \<le> length (filter isRound1 (createRound1 ms))"
    by (simp add: createRound1_count)
  then have "length (round1Payload (getPlayoffMatches (createRound1 ms))) = 0"
    unfolding length_round1Payload round1_count by simp
  then have "round1Payload (getPlayoffMatches (createRound1 ms)) = []"
    by simp
  then show ?thesis
    by (simp add: createRound1_def [of "createRound1 ms"] bulkInsert_def)
qed

text \<open>
  C6. The claim: from any set of round-1 matches, the operation leaves exactly eight, one
  per position 1 to 8, and a second run creates nothing. A second run does create nothing
  (\<open>createRound1_twice\<close>), but the rows sent are the positions above the \<^emph>\<open>number\<close> of
  round-1 matches, whatever positions those hold. With the match of position 8 alone, the
  operation adds positions 2 to 8: position 8 twice, position 1 never.
\<close>

theorem createRound1_duplicates_position:
  "map db_bracket_pos (createRound1 [mkPlayoff 1 1 8 None None])
     = [Some 8, Some 2, Some 3, Some 4, Some 5, Some 6, Some 7, Some 8]
   \<and> map db_playoff_round (createRound1 [mkPlayoff 1 1 8 None None])
     = [Some 1, Some 1, Some 1, Some 1, Some 1, Some 1, Some 1, Some 1]"
  by code_simp

subsection \<open>Round 2 seeds\<close>

lemma idsOk_same_row:
  "idsOk ms \<Longrightarrow> x \<in> set ms \<Longrightarrow> y \<in> set ms \<Longrightarrow> db_id x = db_id y \<Longrightarrow> x = y"
  by (auto simp: idsOk_def distinct_map dest: inj_onD)

lemma idsOk_updateById:
  "(\<And>m. db_id (patch m) = db_id m) \<Longrightarrow> idsOk (updateById i patch ms) = idsOk ms"
  by (simp add: idsOk_def map_id_updateById)

lemma idsOk_insertMatch: "idsOk ms \<Longrightarrow> idsOk (insertMatch row ms)"
  using freshId_notin [of ms] by (auto simp: idsOk_def insertMatch_def freshId_nonzero)

lemma idsOk_seedStep: "idsOk ms \<Longrightarrow> idsOk (seedStep byes j ms)"
  by (auto simp: seedStep_def Let_def updateMatch_def idsOk_updateById idsOk_insertMatch
           split: option.splits)

text \<open>The step for position \<open>j\<close> leaves the match of every other position as it is.\<close>

lemma slotMatch_seedStep_other:
  assumes ok: "idsOk ms" and ne: "j \<noteq> i"
  shows "slotMatch 2 i (seedStep byes j ms) = slotMatch 2 i ms"
proof (cases "slotMatch 2 j ms")
  case None
  then show ?thesis
    using ne by (simp add: seedStep_def Let_def insertMatch_def slotMatch_def find_snoc
                  newPlayoffMatch_def split: option.splits)
next
  case (Some e)
  then have e: "e \<in> set ms" "db_bracket_pos e = Some j"
    using find_mem [of _ ms e] by (auto simp: slotMatch_def)
  show ?thesis
  proof (cases "truthy (byeAt byes (j - 1)) \<and> db_id e \<noteq> 0")
    case False
    with Some show ?thesis by (auto simp: seedStep_def Let_def updateMatch_def)
  next
    case True
    let ?patch = "\<lambda>m. m \<lparr> db_team1_id := byeAt byes (j - 1) \<rparr>"
    have step: "seedStep byes j ms = updateById (db_id e) ?patch ms"
      using Some True by (simp add: seedStep_def Let_def updateMatch_def)
    have "slotMatch 2 i (updateById (db_id e) ?patch ms)
            = map_option (\<lambda>m. if db_id m = db_id e then ?patch m else m) (slotMatch 2 i ms)"
      by (rule slotMatch_updateById) simp_all
    also have "\<dots> = slotMatch 2 i ms"
    proof (cases "slotMatch 2 i ms")
      case None
      then show ?thesis by simp
    next
      case (Some x)
      then have x: "x \<in> set ms" "db_bracket_pos x = Some i"
        using find_mem [of _ ms x] by (auto simp: slotMatch_def)
      have "db_id x \<noteq> db_id e"
        using idsOk_same_row [OF ok x(1) e(1)] x(2) e(2) ne by auto
      with Some show ?thesis by simp
    qed
    finally show ?thesis by (simp add: step)
  qed
qed

lemma slotMatch_seedStep_self:
  assumes ok: "idsOk ms"
  shows "slotMatch 2 i (seedStep byes i ms) =
           (case slotMatch 2 i ms of
              Some e \<Rightarrow> Some (if truthy (byeAt byes (i - 1))
                               then e \<lparr> db_team1_id := byeAt byes (i - 1) \<rparr> else e)
            | None \<Rightarrow> Some ((newPlayoffMatch 0
                                (if truthy (byeAt byes (i - 1)) then byeAt byes (i - 1) else None)
                                None 2 i) \<lparr> db_id := freshId ms \<rparr>))"
proof (cases "slotMatch 2 i ms")
  case None
  then show ?thesis
    by (simp add: seedStep_def Let_def insertMatch_def slotMatch_def find_snoc newPlayoffMatch_def)
next
  case (Some e)
  then have e: "e \<in> set ms"
    using find_mem [of _ ms e] by (auto simp: slotMatch_def)
  with ok have nz: "db_id e \<noteq> 0"
    by (auto simp: idsOk_def)
  show ?thesis
  proof (cases "truthy (byeAt byes (i - 1))")
    case False
    with Some show ?thesis by (simp add: seedStep_def Let_def)
  next
    case True
    let ?patch = "\<lambda>m. m \<lparr> db_team1_id := byeAt byes (i - 1) \<rparr>"
    have step: "seedStep byes i ms = updateById (db_id e) ?patch ms"
      using Some True nz by (simp add: seedStep_def Let_def updateMatch_def)
    have "slotMatch 2 i (updateById (db_id e) ?patch ms)
            = map_option (\<lambda>m. if db_id m = db_id e then ?patch m else m) (slotMatch 2 i ms)"
      by (rule slotMatch_updateById) simp_all
    with Some True show ?thesis by (simp add: step)
  qed
qed

lemma fold_seedStep_other:
  "idsOk ms \<Longrightarrow> i \<notin> set js \<Longrightarrow>
     slotMatch 2 i (fold (seedStep byes) js ms) = slotMatch 2 i ms
     \<and> idsOk (fold (seedStep byes) js ms)"
proof (induction js arbitrary: ms)
  case Nil
  then show ?case by simp
next
  case (Cons j js)
  from Cons.prems have "idsOk (seedStep byes j ms)" "i \<notin> set js" "j \<noteq> i"
    by (auto intro: idsOk_seedStep)
  with Cons.IH [of "seedStep byes j ms"] Cons.prems(1) show ?case
    by (simp add: slotMatch_seedStep_other)
qed

lemma upt_split: "a \<le> i \<Longrightarrow> i < b \<Longrightarrow> [a ..< b] = [a ..< i] @ i # [Suc i ..< b]"
  by (metis le_add_diff_inverse less_imp_le_nat upt_add_eq_append upt_conv_Cons)

text \<open>
  C5, as amended. The claim: a seed goes only into an empty slot of an existing match.
  The editor writes the seed into \<open>team1_id\<close> of the existing match whether or not a team
  is there, and leaves the rest of the match, \<open>team2_id\<close> included, as it is; without a
  seed the match is not touched. Where the position has no match, one is created with the
  seed (or null) as \<open>team1_id\<close> and \<open>team2_id\<close> null. Ids are distinct and not 0.
\<close>

theorem seedRound2Byes_slot:
  assumes "distinct (map db_id ms)" and "0 \<notin> set (map db_id ms)"
      and "1 \<le> i" and "i \<le> 8"
  shows "slotMatch 2 i (seedRound2Byes byes ms) =
           (case slotMatch 2 i ms of
              Some e \<Rightarrow> Some (if truthy (byeAt byes (i - 1))
                               then e \<lparr> db_team1_id := byeAt byes (i - 1) \<rparr> else e)
            | None \<Rightarrow> Some ((newPlayoffMatch 0
                                (if truthy (byeAt byes (i - 1)) then byeAt byes (i - 1) else None)
                                None 2 i)
                              \<lparr> db_id := freshId (fold (seedStep byes) [1 ..< i] ms) \<rparr>))"
proof -
  have ok: "idsOk ms"
    using assms(1,2) by (simp add: idsOk_def)
  let ?before = "fold (seedStep byes) [1 ..< i] ms"
  have split: "[1 ..< 9] = [1 ..< i] @ i # [Suc i ..< 9]"
    using assms(3,4) by (intro upt_split) simp_all
  have before: "slotMatch 2 i ?before = slotMatch 2 i ms" "idsOk ?before"
    using fold_seedStep_other [where ms = ms and i = i and js = "[1 ..< i]" and byes = byes] ok
    by simp_all
  have after: "slotMatch 2 i (fold (seedStep byes) [Suc i ..< 9] (seedStep byes i ?before))
                 = slotMatch 2 i (seedStep byes i ?before)"
    using fold_seedStep_other [where ms = "seedStep byes i ?before" and i = i
            and js = "[Suc i ..< 9]" and byes = byes]
          idsOk_seedStep [OF before(2)]
    by simp
  have "seedRound2Byes byes ms = fold (seedStep byes) ([1 ..< i] @ i # [Suc i ..< 9]) ms"
    unfolding seedRound2Byes_def by (simp only: split [symmetric])
  then have run: "seedRound2Byes byes ms
                    = fold (seedStep byes) [Suc i ..< 9] (seedStep byes i ?before)"
    by (simp only: fold_append fold_simps comp_apply)
  have "slotMatch 2 i (seedRound2Byes byes ms) = slotMatch 2 i (seedStep byes i ?before)"
    by (simp only: run after)
  also have "\<dots> =
           (case slotMatch 2 i ?before of
              Some e \<Rightarrow> Some (if truthy (byeAt byes (i - 1))
                               then e \<lparr> db_team1_id := byeAt byes (i - 1) \<rparr> else e)
            | None \<Rightarrow> Some ((newPlayoffMatch 0
                                (if truthy (byeAt byes (i - 1)) then byeAt byes (i - 1) else None)
                                None 2 i) \<lparr> db_id := freshId ?before \<rparr>))"
    by (rule slotMatch_seedStep_self [OF before(2)])
  finally show ?thesis
    by (simp only: before(1))
qed

theorem seedRound2Byes_slot_witness:
  "map_option (\<lambda>m. (db_id m, db_bracket_pos m, db_team1_id m, db_team2_id m))
       (slotMatch 2 1 (seedRound2Byes seeds [mkPlayoff 1 2 1 (Some 5) None]))
     = Some (1, Some 1, Some 9, None)"
proof -
  have d: "distinct (map db_id [mkPlayoff 1 2 1 (Some 5) None])"
    and z: "0 \<notin> set (map db_id [mkPlayoff 1 2 1 (Some 5) None])"
    by (simp_all add: mkPlayoff_def)
  have s: "slotMatch 2 1 [mkPlayoff 1 2 1 (Some 5) None] = Some (mkPlayoff 1 2 1 (Some 5) None)"
    by code_simp
  have b: "byeAt seeds (1 - 1) = Some 9" "truthy (Some 9)"
    by code_simp+
  have "slotMatch 2 1 (seedRound2Byes seeds [mkPlayoff 1 2 1 (Some 5) None])
          = Some ((mkPlayoff 1 2 1 (Some 5) None) \<lparr> db_team1_id := Some 9 \<rparr>)"
    using seedRound2Byes_slot [OF d z, of 1 seeds] by (simp only: s b) simp
  then show ?thesis
    by (simp add: mkPlayoff_def newPlayoffMatch_def)
qed

text \<open>The match of position 1 already has team 5 as \<open>team1_id\<close>; the seed is team 9.\<close>

theorem seedRound2Byes_overwrites_team1:
  "map (\<lambda>m. (db_id m, db_bracket_pos m, db_team1_id m, db_team2_id m)) [mkPlayoff 1 2 1 (Some 5) None]
     = [(1, Some 1, Some 5, None)]
   \<and> map (\<lambda>m. (db_id m, db_bracket_pos m, db_team1_id m, db_team2_id m))
          (take 1 (seedRound2Byes seeds [mkPlayoff 1 2 1 (Some 5) None]))
     = [(1, Some 1, Some 9, None)]"
  by code_simp

section \<open>Match-level forfeit\<close>

lemma saveForfeitMatch_rows:
  assumes "find (\<lambda>m. me_id m = matchId) allMatches = Some e"
      and "m \<in> set (saveForfeitMatch clear matchId forfeit format allMatches ms)"
      and "db_id m = matchId" and "matchId \<noteq> 0"
  shows "db_winner_id m = Some (if forfeit then me_team1_id e else me_team2_id e)
       \<and> db_score_t1 m = Some (if forfeit then 13 else 0)
       \<and> db_score_t2 m = Some (if forfeit then 0 else 13)
       \<and> db_maps_played m = Some 0 \<and> db_is_forfeit m = Some 1 \<and> db_status m = ''completed''"
proof -
  have id: "db_id (forfeitPatch forfeit format (Some e) x) = db_id x" for x
    by (simp add: forfeitPatch_def Let_def)
  have "saveForfeitMatch clear matchId forfeit format allMatches ms
          = updateById matchId (forfeitPatch forfeit format (Some e)) (clear matchId ms)"
    using assms(1,4) by (simp add: saveForfeitMatch_def Let_def updateMatch_def)
  with assms(2) have "m \<in> set (updateById matchId (forfeitPatch forfeit format (Some e))
                                  (clear matchId ms))"
    by simp
  from updateById_rows [OF this assms(3) id]
  obtain x where "m = forfeitPatch forfeit format (Some e) x"
    by blast
  then show ?thesis
    by (cases forfeit) (simp_all add: forfeitPatch_def)
qed

lemma saveForfeitButton_rows:
  assumes "find (\<lambda>m. me_id m = matchId) allMatches = Some e"
      and "\<not> disabled matchId forfeit saving"
      and "m \<in> set (saveForfeitButton clear matchId forfeit saving format allMatches ms)"
      and "db_id m = matchId"
  shows "db_winner_id m = Some (me_team1_id e)
       \<and> db_score_t1 m = Some 13 \<and> db_score_t2 m = Some 0"
proof -
  from assms(2) have "forfeit" "matchId \<noteq> 0"
    by (simp_all add: disabled_def)
  with saveForfeitMatch_rows [OF assms(1) _ assms(4), of clear forfeit format ms] assms(2,3)
  show ?thesis
    by (simp add: saveForfeitButton_def)
qed

lemma saveForfeitButton_disabled:
  "\<not> forfeit \<Longrightarrow> saveForfeitButton clear matchId forfeit saving format allMatches ms = ms"
  by (simp add: saveForfeitButton_def disabled_def)

text \<open>
  C9. The claim: the forfeit path records the winner the caller names, 13 to 0 in the
  winner's favour, for either team. \<open>saveForfeitMatch\<close> takes no winner: it gives the match
  to team 1 when the checkbox is ticked and to team 2 when it is not
  (\<open>saveForfeitMatch_rows\<close>), and its button is disabled while the checkbox is not ticked.
  So a forfeit is always recorded 13 to 0 for team 1 (\<open>saveForfeitButton_rows\<close>), and
  with the box unticked nothing is written.
\<close>

theorem saveForfeitButton_team1_only:
  "map (\<lambda>m. (db_score_t1 m, db_score_t2 m, db_winner_id m, db_status m, db_maps_played m, db_is_forfeit m))
       (saveForfeitButton noClear 1 True False ''BO3'' editorMatches forfeitTable)
     = [(Some 13, Some 0, Some 10, ''completed'', Some 0, Some 1)]
   \<and> saveForfeitButton noClear 1 False False ''BO3'' editorMatches forfeitTable = forfeitTable"
  by code_simp

end
